theory Spec2Isabelle
  imports Main "HOL-Library.Sublist"
begin

section \<open>gphotosdl: the browser-session controller of main.go\<close>

text \<open>
  The source file holds two versions of \<^verbatim>\<open>main.go\<close>, one after the other. They share
  almost every line; where they differ, the definitions below take the version as a
  parameter. \<open>VariantA\<close> is the first version in the file (lines 1 to 423),
  \<open>VariantB\<close> the second (lines 424 to 882).
\<close>

datatype variant = VariantA | VariantB

subsection \<open>Constants\<close>

definition gphotosURL :: string where
  "gphotosURL = ''https://photos.google.com/''"

fun loginURL :: "variant \<Rightarrow> string" where
  "loginURL VariantA = ''https://accounts.google.com/''"
| "loginURL VariantB = ''https://photos.google.com/login''"

definition gphotoURLReal :: string where
  "gphotoURLReal = ''https://photos.google.com/photo/''"

fun gphotoURL :: "variant \<Rightarrow> string" where
  "gphotoURL VariantA = ''https://photos.google.com/photo/''"
| "gphotoURL VariantB = ''https://photos.google.com/lr/photo/''"

text \<open>\<^verbatim>\<open>http.StatusInternalServerError\<close>.\<close>

definition StatusInternalServerError :: int where
  "StatusInternalServerError = 500"

subsection \<open>Strings\<close>

text \<open>
  \<^verbatim>\<open>strings.HasPrefix(s, prefix)\<close> is
  \<^verbatim>\<open>len(s) >= len(prefix) && s[:len(prefix)] == prefix\<close>.
\<close>

definition HasPrefix :: "string \<Rightarrow> string \<Rightarrow> bool" where
  "HasPrefix s p \<longleftrightarrow> length p \<le> length s \<and> take (length p) s = p"

subsection \<open>The authentication test of startBrowser\<close>

text \<open>
  The test applied to the home tab's URL on every poll: the first version has
  \<^verbatim>\<open>strings.HasPrefix(info.URL, gphotosURL)\<close>, the second
  \<^verbatim>\<open>info.URL == gphotosURL\<close>.
\<close>

fun authenticated :: "variant \<Rightarrow> string \<Rightarrow> bool" where
  "authenticated VariantA url = HasPrefix url gphotosURL"
| "authenticated VariantB url = (url = gphotosURL)"

subsection \<open>Errors\<close>

text \<open>
  Go error values, as far as main.go builds and inspects them. \<open>External m\<close> is an error
  handed back by the browser transport or the operating system, with its message;
  \<open>httpError h\<close> is the type \<^verbatim>\<open>httpError int\<close> of main.go; \<open>New m\<close> is
  \<^verbatim>\<open>errors.New(m)\<close>; \<open>Errorf f args err\<close> is \<^verbatim>\<open>fmt.Errorf(f, args..., err)\<close>, where
  \<open>f\<close> is the format as the source has it, \<open>args\<close> are the operands of its \<^verbatim>\<open>%q\<close>
  verbs and \<open>err\<close> the operand of its \<^verbatim>\<open>%w\<close> verb.
\<close>

datatype error =
    External string
  | httpError int
  | New string
  | Errorf string "string list" error

text \<open>
  \<^verbatim>\<open>errors.As(err, &h)\<close> with \<^verbatim>\<open>h\<close> of type \<^verbatim>\<open>httpError\<close>: the first error of that
  type on the chain that \<^verbatim>\<open>%w\<close> builds. An external error is of a type of another
  package and \<^verbatim>\<open>errors.New\<close> wraps nothing.
\<close>

fun As_httpError :: "error \<Rightarrow> int option" where
  "As_httpError (httpError h) = Some h"
| "As_httpError (Errorf f args err) = As_httpError err"
| "As_httpError (External m) = None"
| "As_httpError (New m) = None"

text \<open>Decimal digits, for the verb \<^verbatim>\<open>%d\<close> of \<^verbatim>\<open>httpError.Error\<close>.\<close>

fun digits :: "nat \<Rightarrow> string" where
  "digits n =
     (if n < 10 then [char_of (48 + n)]
      else digits (n div 10) @ [char_of (48 + n mod 10)])"

declare digits.simps [simp del]

definition Itoa :: "int \<Rightarrow> string" where
  "Itoa i = (if i < 0 then CHR ''-'' # digits (nat (- i)) else digits (nat i))"

text \<open>
  The formats of main.go use the verbs \<^verbatim>\<open>%q\<close> and \<^verbatim>\<open>%w\<close> only. \<open>Sprintf f qs m\<close>
  fills format \<open>f\<close> with the quoted operands \<open>qs\<close>, in order, and the message \<open>m\<close> of
  the wrapped error.
\<close>

fun Sprintf :: "string \<Rightarrow> string list \<Rightarrow> string \<Rightarrow> string" where
  "Sprintf (c # d # f) qs m =
     (if c = CHR ''%'' \<and> d = CHR ''q'' then
        (case qs of [] \<Rightarrow> ''%!q(MISSING)'' @ Sprintf f [] m
         | q # qs' \<Rightarrow> q @ Sprintf f qs' m)
      else if c = CHR ''%'' \<and> d = CHR ''w'' then m @ Sprintf f qs m
      else c # Sprintf (d # f) qs m)"
| "Sprintf f qs m = f"

text \<open>
  The method \<^verbatim>\<open>Error() string\<close>. The quoting that \<^verbatim>\<open>%q\<close> applies
  (\<^verbatim>\<open>strconv.Quote\<close>) belongs to the standard library and is the parameter \<open>quote\<close>.
\<close>

fun Error :: "(string \<Rightarrow> string) \<Rightarrow> error \<Rightarrow> string" where
  "Error quote (External m) = m"
| "Error quote (httpError h) = ''HTTP Error '' @ Itoa h"
| "Error quote (New m) = m"
| "Error quote (Errorf f args err) = Sprintf f (map quote args) (Error quote err)"

subsection \<open>The browser, the operating system and what the program does to them\<close>

text \<open>A \<^verbatim>\<open>*rod.Page\<close>: the handle of one browser tab.\<close>

datatype tab = Tab nat

text \<open>\<^verbatim>\<open>proto.NetworkResponseReceived\<close>, reduced to the two fields main.go reads.\<close>

record NetworkResponse =
  URL :: string
  Status :: int

record NetworkResponseReceived =
  Response :: NetworkResponse

text \<open>
  Everything outside the program answers through a \<open>world\<close>: one field for each call
  that main.go makes on the browser transport, the file system and the path library.
  A call that can fail answers with its error; \<open>pageInfo w t k\<close> is the answer to the
  \<open>k\<close>-th call (from 0) of \<^verbatim>\<open>Info\<close> on tab \<open>t\<close>; \<open>networkEvents w t url\<close> are the
  network responses delivered, in order, to a listener on tab \<open>t\<close> after it is sent to
  \<open>url\<close>, up to the moment the listener's context ends; \<open>downloadGUID w\<close> is the GUID of
  the download event that the download waiter returns. Every blocking wait is taken to
  come back.
\<close>

record world =
  launch :: "error + string"
  connect :: "error option"
  browserPage :: "string \<Rightarrow> error + tab"
  pageWaitLoad :: "tab \<Rightarrow> error option"
  pageInfo :: "tab \<Rightarrow> nat \<Rightarrow> error + string"
  pageWaitDownload :: "tab \<Rightarrow> error option"
  pageNavigate :: "tab \<Rightarrow> string \<Rightarrow> error option"
  networkEvents :: "tab \<Rightarrow> string \<Rightarrow> NetworkResponseReceived list"
  keyActions :: "tab \<Rightarrow> error option"
  downloadGUID :: string
  osStat :: "string \<Rightarrow> error + nat"
  filepathJoin :: "string \<Rightarrow> string \<Rightarrow> string"

text \<open>The flags and global variables that the two functions read.\<close>

record globals =
  login :: bool
  downloadDir :: string

text \<open>The struct \<^verbatim>\<open>Gphotos\<close>: \<open>page\<close> is the home tab; the mutex shows as the actions
  \<open>Lock\<close> and \<open>Unlock\<close>.\<close>

record Gphotos =
  page :: tab

text \<open>
  The calls a run makes, in order. \<open>Callback e\<close> is one call of the network listener,
  with the event it is given; \<open>Wait guid\<close> is the return of the download waiter.
\<close>

datatype action =
    Lock
  | Unlock
  | Launch
  | Connect
  | BrowserPage string
  | PageClose tab
  | PageInfo tab
  | PageEachEvent tab
  | PageWaitDownload tab
  | BrowserWaitDownload string
  | PageNavigate tab string
  | PageWaitLoad tab
  | WaitNetwork
  | Callback NetworkResponseReceived
  | Sleep
  | KeyActions tab
  | Wait string
  | OsStat string
  | OsRemove string

text \<open>A run is a result and the calls made. \<open>after\<close> puts calls before the rest of a
  run; \<open>deferred\<close> puts the calls of a \<^verbatim>\<open>defer\<close> statement behind it.\<close>

fun after :: "action list \<Rightarrow> 'r \<times> action list \<Rightarrow> 'r \<times> action list" where
  "after as (r, tr) = (r, as @ tr)"

fun deferred :: "action list \<Rightarrow> 'r \<times> action list \<Rightarrow> 'r \<times> action list" where
  "deferred ds (r, tr) = (r, tr @ ds)"

subsection \<open>Download\<close>

text \<open>
  The listener that the second version registers with \<^verbatim>\<open>page.EachEvent\<close>: its result
  says whether the event is the awaited one; in that case the event is stored in
  \<^verbatim>\<open>netResponse\<close>.
\<close>

definition callback :: "NetworkResponseReceived \<Rightarrow> bool" where
  "callback e =
     (if HasPrefix (URL (Response e)) gphotoURLReal then True
      else if HasPrefix (URL (Response e)) (gphotoURL VariantB) then True
      else False)"

text \<open>
  \<^verbatim>\<open>waitNetwork()\<close>: the listener is called on each event until it answers true; the
  result is the final value of \<^verbatim>\<open>netResponse\<close>, still nil when the events end first.
\<close>

fun waitNetwork :: "NetworkResponseReceived list \<Rightarrow> NetworkResponseReceived option \<times> action list" where
  "waitNetwork [] = (None, [])"
| "waitNetwork (e # es) =
     after [Callback e] (if callback e then (Some e, []) else waitNetwork es)"

text \<open>
  Download, step by step as the source has it. The mutex is taken first and its release
  deferred; once the new tab is open, \<^verbatim>\<open>page.Close()\<close> is deferred too, so the two
  deferred calls end every later run, the close first. What \<^verbatim>\<open>page.Close()\<close> itself
  answers has no part in the result: the first version drops its error, the second logs it.
  Log lines are left out.

  The first version (lines 330 to 389).
\<close>

definition Download_A :: "globals \<Rightarrow> world \<Rightarrow> Gphotos \<Rightarrow> string \<Rightarrow> (error + string) \<times> action list" where
  "Download_A cfg w g photoID =
     deferred [Unlock] (after [Lock]
       (let url = gphotoURL VariantA @ photoID in
        after [BrowserPage []]
         (case browserPage w [] of
            Inl err \<Rightarrow>
              (Inl (Errorf ''failed to open browser tab for photo %q: %w'' [photoID] err), [])
          | Inr tab \<Rightarrow>
              deferred [PageClose tab] (after [PageWaitDownload tab]
               (case pageWaitDownload w tab of
                  Some err \<Rightarrow> (Inl (Errorf ''failed to set up download waiter: %w'' [] err), [])
                | None \<Rightarrow>
                    after [PageNavigate tab url]
                     (case pageNavigate w tab url of
                        Some err \<Rightarrow>
                          (Inl (Errorf ''failed to navigate to photo %q: %w'' [photoID] err), [])
                      | None \<Rightarrow>
                          after [PageWaitLoad tab]
                           (case pageWaitLoad w tab of
                              Some err \<Rightarrow> (Inl (Errorf ''gphoto page load: %w'' [] err), [])
                            | None \<Rightarrow>
                                after [Sleep, KeyActions tab]
                                 (case keyActions w tab of
                                    Some err \<Rightarrow>
                                      (Inl (Errorf ''failed to send download keypress: %w'' [] err), [])
                                  | None \<Rightarrow>
                                      (let path = filepathJoin w (downloadDir cfg) (downloadGUID w) in
                                       after [Wait (downloadGUID w), OsStat path]
                                        (case osStat w path of
                                           Inl err \<Rightarrow>
                                             (Inl (Errorf ''download failed, file not found: %w'' [] err), [])
                                         | Inr fi \<Rightarrow> (Inr path, [])))))))))))"

text \<open>The second version (lines 757 to 844).\<close>

definition Download_B :: "globals \<Rightarrow> world \<Rightarrow> Gphotos \<Rightarrow> string \<Rightarrow> (error + string) \<times> action list" where
  "Download_B cfg w g photoID =
     deferred [Unlock] (after [Lock]
       (let url = gphotoURL VariantB @ photoID in
        after [BrowserPage []]
         (case browserPage w [] of
            Inl err \<Rightarrow>
              (Inl (Errorf ''failed to open browser tab for photo %q: %w'' [photoID] err), [])
          | Inr tab \<Rightarrow>
              deferred [PageClose tab] (after [PageEachEvent tab, PageNavigate tab url]
               (case pageNavigate w tab url of
                  Some err \<Rightarrow>
                    (Inl (Errorf ''failed to navigate to photo %q: %w'' [photoID] err), [])
                | None \<Rightarrow>
                    after [PageWaitLoad (page g)]
                     (case pageWaitLoad w (page g) of
                        Some err \<Rightarrow> (Inl (Errorf ''gphoto page load: %w'' [] err), [])
                      | None \<Rightarrow>
                          after [WaitNetwork]
                           (case waitNetwork (networkEvents w tab url) of
                              (netResponse, calls) \<Rightarrow>
                                after calls
                                 (case netResponse of
                                    None \<Rightarrow>
                                      (Inl (New ''did not receive the expected network response for the photo''), [])
                                  | Some e \<Rightarrow>
                                      if Status (Response e) \<noteq> 200 then
                                        (Inl (Errorf ''gphoto fetch failed: %w'' []
                                               (httpError (Status (Response e)))), [])
                                      else
                                        after [BrowserWaitDownload (downloadDir cfg), Sleep, KeyActions tab]
                                         (case keyActions w tab of
                                            Some err \<Rightarrow>
                                              (Inl (Errorf ''failed to send download keypress: %w'' [] err), [])
                                          | None \<Rightarrow>
                                              (let path = filepathJoin w (downloadDir cfg) (downloadGUID w) in
                                               after [Wait (downloadGUID w), OsStat path]
                                                (case osStat w path of
                                                   Inl err \<Rightarrow>
                                                     (Inl (Errorf ''download failed, file not found: %w'' [] err), [])
                                                 | Inr fi \<Rightarrow> (Inr path, []))))))))))))"

fun Download :: "variant \<Rightarrow> globals \<Rightarrow> world \<Rightarrow> Gphotos \<Rightarrow> string \<Rightarrow> (error + string) \<times> action list" where
  "Download VariantA = Download_A"
| "Download VariantB = Download_B"

subsection \<open>getID\<close>

text \<open>
  What the handler sends: a bare status line (\<^verbatim>\<open>w.WriteHeader(code)\<close>) or the file
  (\<^verbatim>\<open>http.ServeFile\<close>). The handler is the same in both versions.
\<close>

datatype response = WriteHeader int | ServeFile string

definition getID :: "variant \<Rightarrow> globals \<Rightarrow> world \<Rightarrow> Gphotos \<Rightarrow> string \<Rightarrow> response \<times> action list" where
  "getID v cfg w g photoID =
     (case Download v cfg w g photoID of
        (Inl err, tr) \<Rightarrow>
          (case As_httpError err of
             Some h \<Rightarrow> (WriteHeader h, tr)
           | None \<Rightarrow> (WriteHeader StatusInternalServerError, tr))
      | (Inr path, tr) \<Rightarrow> (ServeFile path, tr @ [OsRemove path]))"

subsection \<open>startBrowser\<close>

text \<open>
  The loop \<^verbatim>\<open>for try := 0; *login || try < 60; try++\<close>. With the login flag it has no
  bound, so the function is partial: \<open>None\<close> is a loop that never ends. \<open>tr\<close> holds the
  calls made so far; the result is the final value of \<^verbatim>\<open>authenticated\<close> with the calls.
  A failed \<^verbatim>\<open>Info\<close> goes on to the next round (\<^verbatim>\<open>continue\<close>), as a URL that fails the
  test does.
\<close>

partial_function (option) authLoop ::
  "variant \<Rightarrow> globals \<Rightarrow> world \<Rightarrow> tab \<Rightarrow> nat \<Rightarrow> action list \<Rightarrow> (bool \<times> action list) option" where
  "authLoop v cfg w home try tr =
     (if login cfg \<or> try < 60 then
        (case pageInfo w home try of
           Inl err \<Rightarrow> authLoop v cfg w home (try + 1) (tr @ [Sleep, PageInfo home])
         | Inr url \<Rightarrow>
             if authenticated v url then Some (True, tr @ [Sleep, PageInfo home])
             else authLoop v cfg w home (try + 1) (tr @ [Sleep, PageInfo home]))
      else Some (False, tr))"

declare authLoop.simps [code]

text \<open>
  startBrowser: launch the browser, connect to it, open the home tab on the start URL,
  wait for its load, then run the loop. The options handed to the launcher (binary, profile
  directory, headless mode, preferences) have no part in what follows and are left out.
  On success the home tab is stored in \<^verbatim>\<open>g.page\<close>.
\<close>

definition startBrowser ::
  "variant \<Rightarrow> globals \<Rightarrow> world \<Rightarrow> ((error + Gphotos) \<times> action list) option" where
  "startBrowser v cfg w =
     (case launch w of
        Inl err \<Rightarrow> Some (Inl (Errorf ''browser launch: %w'' [] err), [Launch])
      | Inr url \<Rightarrow>
          (case connect w of
             Some err \<Rightarrow>
               Some (Inl (Errorf ''failed to connect to browser: %w'' [] err), [Launch, Connect])
           | None \<Rightarrow>
               (let startURL = (if login cfg then loginURL v else gphotosURL) in
                case browserPage w startURL of
                  Inl err \<Rightarrow>
                    Some (Inl (Errorf ''couldn't open initial URL: %w'' [] err),
                          [Launch, Connect, BrowserPage startURL])
                | Inr home \<Rightarrow>
                    (case pageWaitLoad w home of
                       Some err \<Rightarrow>
                         Some (Inl (Errorf ''initial page load: %w'' [] err),
                               [Launch, Connect, BrowserPage startURL, PageWaitLoad home])
                     | None \<Rightarrow>
                         (case authLoop v cfg w home 0
                                 [Launch, Connect, BrowserPage startURL, PageWaitLoad home] of
                            None \<Rightarrow> None
                          | Some (auth, tr) \<Rightarrow>
                              if \<not> auth then
                                Some (Inl (New ''browser is not logged in - rerun with the -login flag''), tr)
                              else Some (Inr \<lparr>page = home\<rparr>, tr))))))"

subsection \<open>Calls on a tab\<close>

text \<open>The tab that a call is made on, for the calls made on a tab.\<close>

fun onTab :: "action \<Rightarrow> tab option" where
  "onTab (PageClose t) = Some t"
| "onTab (PageInfo t) = Some t"
| "onTab (PageEachEvent t) = Some t"
| "onTab (PageWaitDownload t) = Some t"
| "onTab (PageNavigate t u) = Some t"
| "onTab (PageWaitLoad t) = Some t"
| "onTab (KeyActions t) = Some t"
| "onTab a = None"

subsection \<open>Example inputs\<close>

text \<open>
  A world in which every call succeeds, the photo page answers 200 and the download ends
  with the file \<^verbatim>\<open>3f6c-guid\<close>; a world in which the photo page answers 404; and a
  world in which no response comes from a photo address. The new tab is \<open>Tab 1\<close>, the
  home tab \<open>Tab 0\<close>.
\<close>

definition event :: "string \<Rightarrow> int \<Rightarrow> NetworkResponseReceived" where
  "event u s = \<lparr>Response = \<lparr>URL = u, Status = s\<rparr>\<rparr>"

definition world0 :: world where
  "world0 =
     \<lparr>launch = Inr ''ws://127.0.0.1:9222/devtools/browser'',
      connect = None,
      browserPage = (\<lambda>u. if u = [] then Inr (Tab 1) else Inr (Tab 0)),
      pageWaitLoad = (\<lambda>t. None),
      pageInfo = (\<lambda>t k. Inr ''https://accounts.google.com/signin''),
      pageWaitDownload = (\<lambda>t. None),
      pageNavigate = (\<lambda>t u. None),
      networkEvents = (\<lambda>t u.
        [event ''https://fonts.gstatic.com/s/roboto.woff2'' 200,
         event ''https://photos.google.com/photo/AF1QipXYZ'' 200]),
      keyActions = (\<lambda>t. None),
      downloadGUID = ''3f6c-guid'',
      osStat = (\<lambda>p. Inr 1024),
      filepathJoin = (\<lambda>d f. d @ ''/'' @ f)\<rparr>"

definition world404 :: world where
  "world404 = world0\<lparr>networkEvents := (\<lambda>t u.
     [event ''https://fonts.gstatic.com/s/roboto.woff2'' 200,
      event ''https://photos.google.com/lr/photo/abc'' 404])\<rparr>"

definition worldNoMatch :: world where
  "worldNoMatch = world0\<lparr>networkEvents := (\<lambda>t u.
     [event ''https://fonts.gstatic.com/s/roboto.woff2'' 200])\<rparr>"

definition globals0 :: globals where
  "globals0 = \<lparr>login = False, downloadDir = ''/tmp/gphotosdl42''\<rparr>"

definition Gphotos0 :: Gphotos where
  "Gphotos0 = \<lparr>page = Tab 0\<rparr>"

text \<open>
  A world in which no tab can be opened, and what \<^verbatim>\<open>%q\<close> makes of a string of letters
  and digits: the string between double quotes.
\<close>

definition worldNoTab :: world where
  "worldNoTab = world0\<lparr>browserPage := (\<lambda>u. Inl (External ''context canceled''))\<rparr>"

definition quotePlain :: "string \<Rightarrow> string" where
  "quotePlain s = CHR 0x22 # s @ [CHR 0x22]"

section \<open>Properties\<close>

subsection \<open>Runs and the network listener\<close>

lemma after_conv: "after as p = (fst p, as @ snd p)"
  by (cases p) simp

lemma deferred_conv: "deferred ds p = (fst p, snd p @ ds)"
  by (cases p) simp

lemma callback_iff:
  "callback e \<longleftrightarrow>
     HasPrefix (URL (Response e)) gphotoURLReal \<or> HasPrefix (URL (Response e)) (gphotoURL VariantB)"
  by (simp add: callback_def)

lemma waitNetwork_calls':
  "a \<in> set (snd (waitNetwork es)) \<Longrightarrow> \<exists>e. a = Callback e"
  by (induction es) (auto simp: after_conv split: if_splits)

lemma waitNetwork_match':
  "Callback e \<in> set (snd (waitNetwork es)) \<Longrightarrow> callback e \<Longrightarrow> fst (waitNetwork es) = Some e"
  by (induction es) (auto simp: after_conv split: if_splits)


lemma waitNetwork_calls:
  "waitNetwork es = (r, calls) \<Longrightarrow> a \<in> set calls \<Longrightarrow> \<exists>e. a = Callback e"
  using waitNetwork_calls' [of a es] by simp


lemma waitNetwork_match:
  "waitNetwork es = (r, calls) \<Longrightarrow> Callback e \<in> set calls \<Longrightarrow> callback e \<Longrightarrow> r = Some e"
  using waitNetwork_match' [of e es] by simp

lemma waitNetwork_None:
  "waitNetwork es = (None, calls) \<Longrightarrow> Callback e \<in> set calls \<Longrightarrow> \<not> callback e"
  using waitNetwork_match by fastforce



subsection \<open>The authentication test\<close>

lemma HasPrefix_prefix: "HasPrefix s p \<longleftrightarrow> prefix p s"
  unfolding HasPrefix_def prefix_def
  by (metis append_eq_conv_conj append_take_drop_id le_add1 length_append)

text \<open>
  C8. The two versions disagree on the authentication test. The URL
  \<^verbatim>\<open>https://photos.google.com/u/0/\<close> passes the prefix test of the first version and
  fails the equality test of the second, so the two tests are different predicates.
\<close>

theorem authenticated_variants_differ:
  "authenticated VariantA ''https://photos.google.com/u/0/''
   \<and> \<not> authenticated VariantB ''https://photos.google.com/u/0/''
   \<and> authenticated VariantA \<noteq> authenticated VariantB"
proof -
  have a: "authenticated VariantA ''https://photos.google.com/u/0/''"
    by (simp add: HasPrefix_def gphotosURL_def)
  have b: "\<not> authenticated VariantB ''https://photos.google.com/u/0/''"
    by (simp add: gphotosURL_def)
  from a b have "authenticated VariantA \<noteq> authenticated VariantB"
    by metis
  with a b show ?thesis by simp
qed

subsection \<open>Download: the successful run\<close>

lemma trace_world0_B:
  "Download_B globals0 world0 Gphotos0 ''abc'' =
     (Inr ''/tmp/gphotosdl42/3f6c-guid'',
      [Lock, BrowserPage [], PageEachEvent (Tab 1),
       PageNavigate (Tab 1) ''https://photos.google.com/lr/photo/abc'',
       PageWaitLoad (Tab 0), WaitNetwork,
       Callback (event ''https://fonts.gstatic.com/s/roboto.woff2'' 200),
       Callback (event ''https://photos.google.com/photo/AF1QipXYZ'' 200),
       BrowserWaitDownload ''/tmp/gphotosdl42'', Sleep, KeyActions (Tab 1),
       Wait ''3f6c-guid'', OsStat ''/tmp/gphotosdl42/3f6c-guid'', PageClose (Tab 1), Unlock])"
  by (simp add: Download_B_def world0_def globals0_def Gphotos0_def event_def callback_def
      HasPrefix_def gphotoURLReal_def after_conv deferred_conv Let_def)



text \<open>
  The same from the side of the world: when every call succeeds and the first response
  from a photo address has status 200, Download returns the path of the downloaded file.
\<close>

lemma Download_A_steps_succeed:
  assumes "browserPage w [] = Inr tab"
    and "pageWaitDownload w tab = None"
    and "pageNavigate w tab (gphotoURL VariantA @ photoID) = None"
    and "pageWaitLoad w tab = None"
    and "keyActions w tab = None"
    and "osStat w (filepathJoin w (downloadDir cfg) (downloadGUID w)) = Inr fi"
  shows "fst (Download_A cfg w g photoID) = Inr (filepathJoin w (downloadDir cfg) (downloadGUID w))"
  using assms
  by (simp add: Download_A_def Let_def after_conv deferred_conv del: gphotoURL.simps)

lemma Download_B_steps_succeed:
  assumes "browserPage w [] = Inr tab"
    and "pageNavigate w tab (gphotoURL VariantB @ photoID) = None"
    and "pageWaitLoad w (page g) = None"
    and "fst (waitNetwork (networkEvents w tab (gphotoURL VariantB @ photoID))) = Some e"
    and "Status (Response e) = 200"
    and "keyActions w tab = None"
    and "osStat w (filepathJoin w (downloadDir cfg) (downloadGUID w)) = Inr fi"
  shows "fst (Download_B cfg w g photoID) = Inr (filepathJoin w (downloadDir cfg) (downloadGUID w))"
  using assms
  by (auto simp: Download_B_def Let_def after_conv deferred_conv simp del: gphotoURL.simps
      split: prod.splits)

subsection \<open>Download: an upstream status other than 200\<close>

lemma Download_B_match:
  assumes "Callback e \<in> set (snd (Download_B cfg w g photoID))" and "callback e"
  shows "Status (Response e) \<noteq> 200 \<longrightarrow>
           fst (Download_B cfg w g photoID) =
             Inl (Errorf ''gphoto fetch failed: %w'' [] (httpError (Status (Response e))))"
  using assms
  by (auto simp: Download_B_def Let_def after_conv deferred_conv simp del: gphotoURL.simps
      split: sum.splits option.splits prod.splits if_splits
      dest: waitNetwork_match)

text \<open>
  C2. If the response that the network listener of Download accepts (second version)
  carries a status \<open>s\<close> other than 200, Download returns an error that wraps
  \<open>httpError s\<close>, and getID answers with the status \<open>s\<close>: it calls
  \<^verbatim>\<open>w.WriteHeader(int(h))\<close> with that value.
\<close>

theorem Download_upstream_status:
  assumes seen: "Callback e \<in> set (snd (Download VariantB cfg w g photoID))"
    and match: "HasPrefix (URL (Response e)) gphotoURLReal \<or>
                HasPrefix (URL (Response e)) (gphotoURL VariantB)"
    and status: "Status (Response e) \<noteq> 200"
  shows "fst (Download VariantB cfg w g photoID) =
           Inl (Errorf ''gphoto fetch failed: %w'' [] (httpError (Status (Response e)))) \<and>
         As_httpError (Errorf ''gphoto fetch failed: %w'' [] (httpError (Status (Response e)))) =
           Some (Status (Response e)) \<and>
         fst (getID VariantB cfg w g photoID) = WriteHeader (Status (Response e))"
proof -
  from match have "callback e" by (simp add: callback_iff)
  with seen status have r: "fst (Download_B cfg w g photoID) =
      Inl (Errorf ''gphoto fetch failed: %w'' [] (httpError (Status (Response e))))"
    using Download_B_match [of e cfg w g photoID] by simp
  then have "fst (getID VariantB cfg w g photoID) = WriteHeader (Status (Response e))"
    by (cases "Download_B cfg w g photoID") (simp add: getID_def)
  with r show ?thesis by simp
qed

lemma trace_world404_B:
  "Download_B globals0 world404 Gphotos0 ''abc'' =
     (Inl (Errorf ''gphoto fetch failed: %w'' [] (httpError 404)),
      [Lock, BrowserPage [], PageEachEvent (Tab 1),
       PageNavigate (Tab 1) ''https://photos.google.com/lr/photo/abc'',
       PageWaitLoad (Tab 0), WaitNetwork,
       Callback (event ''https://fonts.gstatic.com/s/roboto.woff2'' 200),
       Callback (event ''https://photos.google.com/lr/photo/abc'' 404),
       PageClose (Tab 1), Unlock])"
  by (simp add: Download_B_def world404_def world0_def globals0_def Gphotos0_def event_def
      callback_def HasPrefix_def gphotoURLReal_def after_conv deferred_conv Let_def)

theorem Download_upstream_status_witness:
  "fst (Download VariantB globals0 world404 Gphotos0 ''abc'') =
     Inl (Errorf ''gphoto fetch failed: %w'' [] (httpError 404)) \<and>
   As_httpError (Errorf ''gphoto fetch failed: %w'' [] (httpError 404)) = Some 404 \<and>
   fst (getID VariantB globals0 world404 Gphotos0 ''abc'') = WriteHeader 404"
proof -
  have seen: "Callback (event ''https://photos.google.com/lr/photo/abc'' 404)
      \<in> set (snd (Download VariantB globals0 world404 Gphotos0 ''abc''))"
    by (simp add: trace_world404_B)
  have match: "HasPrefix (URL (Response (event ''https://photos.google.com/lr/photo/abc'' 404))) gphotoURLReal \<or>
      HasPrefix (URL (Response (event ''https://photos.google.com/lr/photo/abc'' 404))) (gphotoURL VariantB)"
    by (simp add: event_def HasPrefix_def)
  have status: "Status (Response (event ''https://photos.google.com/lr/photo/abc'' 404)) \<noteq> 200"
    by (simp add: event_def)
  show ?thesis
    using Download_upstream_status [OF seen match status] by (simp add: event_def)
qed

subsection \<open>Download: no response from a photo address\<close>

lemma trace_worldNoMatch_B:
  "Download_B globals0 worldNoMatch Gphotos0 ''abc'' =
     (Inl (New ''did not receive the expected network response for the photo''),
      [Lock, BrowserPage [], PageEachEvent (Tab 1),
       PageNavigate (Tab 1) ''https://photos.google.com/lr/photo/abc'',
       PageWaitLoad (Tab 0), WaitNetwork,
       Callback (event ''https://fonts.gstatic.com/s/roboto.woff2'' 200),
       PageClose (Tab 1), Unlock])"
  by (simp add: Download_B_def worldNoMatch_def world0_def globals0_def Gphotos0_def event_def
      callback_def HasPrefix_def gphotoURLReal_def after_conv deferred_conv Let_def)





subsection \<open>Download: the tab is closed\<close>

lemma Download_A_closes:
  assumes "browserPage w [] = Inr tab"
  shows "\<exists>pre. snd (Download_A cfg w g photoID) = pre @ [PageClose tab, Unlock] \<and>
           PageClose tab \<notin> set pre \<and> Unlock \<notin> set pre"
  using assms
  by (auto simp: Download_A_def Let_def after_conv deferred_conv simp del: gphotoURL.simps
      split: sum.splits option.splits prod.splits if_splits)

lemma Download_B_closes:
  assumes "browserPage w [] = Inr tab"
  shows "\<exists>pre. snd (Download_B cfg w g photoID) = pre @ [PageClose tab, Unlock] \<and>
           PageClose tab \<notin> set pre \<and> Unlock \<notin> set pre"
  using assms
  by (auto simp: Download_B_def Let_def after_conv deferred_conv simp del: gphotoURL.simps
      split: sum.splits option.splits prod.splits if_splits
      dest: waitNetwork_calls)

text \<open>
  C4. Whenever the new tab has been opened, the run of Download ends with the call
  \<^verbatim>\<open>page.Close()\<close> on that tab followed by the release of the mutex, and the tab is
  closed nowhere before: whatever the later steps answer, and whether Download returns
  a path or an error.
\<close>

theorem Download_closes_tab:
  assumes "browserPage w [] = Inr tab"
  shows "\<exists>pre. snd (Download v cfg w g photoID) = pre @ [PageClose tab, Unlock] \<and>
           PageClose tab \<notin> set pre \<and> Unlock \<notin> set pre"
  using assms Download_A_closes Download_B_closes by (cases v) simp_all

theorem Download_closes_tab_witness:
  "\<exists>pre. snd (Download VariantB globals0 world404 Gphotos0 ''abc'') =
           pre @ [PageClose (Tab 1), Unlock] \<and>
         PageClose (Tab 1) \<notin> set pre \<and> Unlock \<notin> set pre"
proof -
  have "browserPage world404 [] = Inr (Tab 1)"
    by (simp add: world404_def world0_def)
  then show ?thesis by (rule Download_closes_tab)
qed

subsection \<open>Download: the mutex\<close>

text \<open>
  Every run of Download starts with \<^verbatim>\<open>g.mu.Lock()\<close>, ends with \<^verbatim>\<open>g.mu.Unlock()\<close> and
  touches the mutex nowhere in between.
\<close>

lemma Download_lock_bracket:
  "\<exists>mid. snd (Download v cfg w g photoID) = Lock # mid @ [Unlock] \<and>
         Lock \<notin> set mid \<and> Unlock \<notin> set mid"
proof (cases v)
  case VariantA
  then show ?thesis
    by (auto simp: Download_A_def Let_def after_conv deferred_conv simp del: gphotoURL.simps
        split: sum.splits option.splits prod.splits if_splits)
next
  case VariantB
  then show ?thesis
    by (auto simp: Download_B_def Let_def after_conv deferred_conv simp del: gphotoURL.simps
        split: sum.splits option.splits prod.splits if_splits
        dest: waitNetwork_calls)
qed

subsection \<open>Download: which tab the steps are made on\<close>

text \<open>In the first version every call on a tab is a call on the new tab.\<close>

lemma Download_A_on_new_tab:
  assumes "browserPage w [] = Inr tab"
    and "a \<in> set (snd (Download_A cfg w g photoID))"
    and "onTab a = Some t"
  shows "t = tab"
  using assms
  by (auto simp: Download_A_def Let_def after_conv deferred_conv simp del: gphotoURL.simps
      split: sum.splits option.splits prod.splits if_splits)

text \<open>In the second version the wait for the load is the one call on another tab.\<close>

lemma Download_B_on_new_tab:
  assumes "browserPage w [] = Inr tab"
    and "a \<in> set (snd (Download_B cfg w g photoID))"
    and "onTab a = Some t"
  shows "t = tab \<or> a = PageWaitLoad (page g)"
  using assms
  by (auto simp: Download_B_def Let_def after_conv deferred_conv simp del: gphotoURL.simps
      split: sum.splits option.splits prod.splits if_splits
      dest: waitNetwork_calls)

lemma Download_B_WaitLoad:
  assumes "PageWaitLoad t \<in> set (snd (Download_B cfg w g photoID))"
  shows "t = page g"
  using assms
  by (auto simp: Download_B_def Let_def after_conv deferred_conv simp del: gphotoURL.simps
      split: sum.splits option.splits prod.splits if_splits
      dest: waitNetwork_calls)

text \<open>
  C6 fails on the second version: it waits for \<^verbatim>\<open>g.page.WaitLoad()\<close>, the home tab, where
  the first version waits for \<^verbatim>\<open>page.WaitLoad()\<close>, the new tab. In the world \<open>world0\<close>
  the new tab is \<open>Tab 1\<close> and the home tab \<open>Tab 0\<close>; the run of the second version
  navigates \<open>Tab 1\<close>, then waits for the load of \<open>Tab 0\<close> and never for that of \<open>Tab 1\<close>.
\<close>

theorem Download_B_waits_on_home_tab:
  "browserPage world0 [] = Inr (Tab 1) \<and> page Gphotos0 = Tab 0 \<and>
   PageNavigate (Tab 1) ''https://photos.google.com/lr/photo/abc''
     \<in> set (snd (Download VariantB globals0 world0 Gphotos0 ''abc'')) \<and>
   PageWaitLoad (Tab 0) \<in> set (snd (Download VariantB globals0 world0 Gphotos0 ''abc'')) \<and>
   PageWaitLoad (Tab 1) \<notin> set (snd (Download VariantB globals0 world0 Gphotos0 ''abc''))"
  by (simp add: trace_world0_B) (simp add: world0_def Gphotos0_def event_def)

subsection \<open>Download: the address of the photo\<close>

lemma Download_A_navigate:
  "(\<forall>t u. PageNavigate t u \<in> set (snd (Download_A cfg w g photoID)) \<longrightarrow>
      u = gphotoURL VariantA @ photoID) \<and>
   (browserPage w [] = Inr tab \<and> pageWaitDownload w tab = None \<longrightarrow>
      PageNavigate tab (gphotoURL VariantA @ photoID) \<in> set (snd (Download_A cfg w g photoID)))"
  by (auto simp: Download_A_def Let_def after_conv deferred_conv simp del: gphotoURL.simps
      split: sum.splits option.splits prod.splits if_splits)

lemma Download_B_navigate:
  "(\<forall>t u. PageNavigate t u \<in> set (snd (Download_B cfg w g photoID)) \<longrightarrow>
      u = gphotoURL VariantB @ photoID) \<and>
   (browserPage w [] = Inr tab \<longrightarrow>
      PageNavigate tab (gphotoURL VariantB @ photoID) \<in> set (snd (Download_B cfg w g photoID)))"
  by (auto simp: Download_B_def Let_def after_conv deferred_conv simp del: gphotoURL.simps
      split: sum.splits option.splits prod.splits if_splits
      dest: waitNetwork_calls)

text \<open>
  C10. Download neither checks nor escapes the photo identifier. Whatever the string,
  the only address it navigates to is the constant \<^verbatim>\<open>gphotoURL\<close> followed by the string
  as it is; and it does navigate there as soon as the new tab is open (and, in the first
  version, the download waiter is set up), so no identifier is turned down.
\<close>

theorem Download_navigates_raw:
  "(\<forall>t u. PageNavigate t u \<in> set (snd (Download v cfg w g photoID)) \<longrightarrow>
      u = gphotoURL v @ photoID) \<and>
   (browserPage w [] = Inr tab \<and> (v = VariantA \<longrightarrow> pageWaitDownload w tab = None) \<longrightarrow>
      PageNavigate tab (gphotoURL v @ photoID) \<in> set (snd (Download v cfg w g photoID)))"
proof (cases v)
  case VariantA
  then show ?thesis using Download_A_navigate [of cfg w g photoID tab] by simp
next
  case VariantB
  then show ?thesis using Download_B_navigate [of cfg w g photoID tab] by simp
qed

theorem Download_navigates_raw_witness:
  "PageNavigate (Tab 1) ''https://photos.google.com/photo/../x?y=1#z''
     \<in> set (snd (Download VariantA globals0 world0 Gphotos0 ''../x?y=1#z'')) \<and>
   PageNavigate (Tab 1) ''https://photos.google.com/lr/photo/''
     \<in> set (snd (Download VariantB globals0 world0 Gphotos0 []))"
proof -
  have tab: "browserPage world0 [] = Inr (Tab 1)"
    by (simp add: world0_def)
  have waiter: "pageWaitDownload world0 (Tab 1) = None"
    by (simp add: world0_def)
  have "PageNavigate (Tab 1) (gphotoURL VariantA @ ''../x?y=1#z'')
      \<in> set (snd (Download VariantA globals0 world0 Gphotos0 ''../x?y=1#z''))"
    using Download_navigates_raw [of VariantA globals0 world0 Gphotos0 "''../x?y=1#z''" "Tab 1"]
      tab waiter by blast
  moreover have "PageNavigate (Tab 1) (gphotoURL VariantB @ [])
      \<in> set (snd (Download VariantB globals0 world0 Gphotos0 []))"
    using Download_navigates_raw [of VariantB globals0 world0 Gphotos0 "[]" "Tab 1"] tab
    by blast
  ultimately show ?thesis by simp
qed

subsection \<open>Download: what the error says\<close>

lemma Sprintf_open_tab:
  "Sprintf ''failed to open browser tab for photo %q: %w'' [q] m =
     ''failed to open browser tab for photo '' @ q @ '': '' @ m"
  by simp

lemma Sprintf_navigate:
  "Sprintf ''failed to navigate to photo %q: %w'' [q] m =
     ''failed to navigate to photo '' @ q @ '': '' @ m"
  by simp

text \<open>
  C9, as stated, fails: when no response comes from a photo address, the error that
  Download returns for the photo \<^verbatim>\<open>abc\<close> is a fixed text, which does not hold \<^verbatim>\<open>abc\<close>.
\<close>

theorem error_without_photo_counterexample:
  "fst (Download VariantB globals0 worldNoMatch Gphotos0 ''abc'') =
     Inl (New ''did not receive the expected network response for the photo'') \<and>
   Error quotePlain (New ''did not receive the expected network response for the photo'') =
     ''did not receive the expected network response for the photo'' \<and>
   \<not> sublist ''abc'' ''did not receive the expected network response for the photo''"
  by (simp add: trace_worldNoMatch_B sublist_Cons_right)

text \<open>
  C9, amended. When opening the new tab fails, or navigating to the photo fails, the
  error that Download returns holds the photo identifier, in the quoted form that the
  verb \<^verbatim>\<open>%q\<close> gives it.
\<close>

theorem Download_error_names_photo:
  assumes "browserPage w [] = Inl err \<or>
           (\<exists>tab. browserPage w [] = Inr tab \<and>
                  (v = VariantA \<longrightarrow> pageWaitDownload w tab = None) \<and>
                  pageNavigate w tab (gphotoURL v @ photoID) = Some err)"
  shows "\<exists>e. fst (Download v cfg w g photoID) = Inl e \<and>
              sublist (quote photoID) (Error quote e)"
proof -
  let ?open = "Errorf ''failed to open browser tab for photo %q: %w'' [photoID] err"
  let ?nav = "Errorf ''failed to navigate to photo %q: %w'' [photoID] err"
  have names_open: "sublist (quote photoID) (Error quote ?open)"
    unfolding Error.simps list.map Sprintf_open_tab by (rule sublist_appendI)
  have names_nav: "sublist (quote photoID) (Error quote ?nav)"
    unfolding Error.simps list.map Sprintf_navigate by (rule sublist_appendI)
  from assms have "fst (Download v cfg w g photoID) = Inl ?open \<or>
      fst (Download v cfg w g photoID) = Inl ?nav"
    by (cases v)
      (auto simp: Download_A_def Download_B_def Let_def after_conv deferred_conv
        simp del: gphotoURL.simps)
  with names_open names_nav show ?thesis by blast
qed

theorem Download_error_names_photo_witness:
  "\<exists>e. fst (Download VariantA globals0 worldNoTab Gphotos0 ''abc'') = Inl e \<and>
        sublist (quotePlain ''abc'') (Error quotePlain e)"
proof -
  have "browserPage worldNoTab [] = Inl (External ''context canceled'')"
    by (simp add: worldNoTab_def)
  then have "browserPage worldNoTab [] = Inl (External ''context canceled'') \<or>
      (\<exists>tab. browserPage worldNoTab [] = Inr tab \<and>
             (VariantA = VariantA \<longrightarrow> pageWaitDownload worldNoTab tab = None) \<and>
             pageNavigate worldNoTab tab (gphotoURL VariantA @ ''abc'') =
               Some (External ''context canceled''))"
    by (rule disjI1)
  then show ?thesis by (rule Download_error_names_photo)
qed

subsection \<open>startBrowser: the bounded wait for the login\<close>

lemma count_list_polls:
  "count_list (concat (replicate n [Sleep, PageInfo home])) (PageInfo home) = n"
  by (induction n) simp_all

lemma authLoop_exhausted:
  assumes bounded: "\<not> login cfg"
    and never: "\<forall>k<60. \<forall>url. pageInfo w home k = Inr url \<longrightarrow> \<not> authenticated v url"
  shows "try \<le> 60 \<Longrightarrow>
         authLoop v cfg w home try tr =
           Some (False, tr @ concat (replicate (60 - try) [Sleep, PageInfo home]))"
proof (induction "60 - try" arbitrary: "try" tr)
  case 0
  then have "try = 60" by simp
  with bounded show ?case
    by (subst authLoop.simps) simp
next
  case (Suc n)
  then have lt: "try < 60" and n: "60 - (try + 1) = n" by simp_all
  from n have rest: "authLoop v cfg w home (try + 1) (tr @ [Sleep, PageInfo home]) =
      Some (False, (tr @ [Sleep, PageInfo home]) @ concat (replicate n [Sleep, PageInfo home]))"
    using Suc.hyps(1) [of "try + 1" "tr @ [Sleep, PageInfo home]"] lt by simp
  from Suc.hyps(2) have unroll: "replicate (60 - try) [Sleep, PageInfo home] =
      [Sleep, PageInfo home] # replicate n [Sleep, PageInfo home]"
    by (metis replicate_Suc)
  show ?case
  proof (cases "pageInfo w home try")
    case (Inl err)
    with lt rest unroll show ?thesis
      by (subst authLoop.simps) simp
  next
    case (Inr url)
    with never lt have "\<not> authenticated v url" by blast
    with Inr lt rest unroll show ?thesis
      by (subst authLoop.simps) simp
  qed
qed

text \<open>
  C5. Without the login flag, if the URL of the home tab passes the authentication test
  on no poll, startBrowser calls \<^verbatim>\<open>g.page.Info()\<close> exactly 60 times, each after a sleep
  of one second, and then returns the error
  \<^verbatim>\<open>browser is not logged in - rerun with the -login flag\<close>.
\<close>

theorem startBrowser_bounded_not_logged_in:
  assumes "\<not> login cfg"
    and "launch w = Inr u"
    and "connect w = None"
    and "browserPage w gphotosURL = Inr home"
    and "pageWaitLoad w home = None"
    and "\<forall>k<60. \<forall>url. pageInfo w home k = Inr url \<longrightarrow> \<not> authenticated v url"
  shows "\<exists>tr. startBrowser v cfg w =
                 Some (Inl (New ''browser is not logged in - rerun with the -login flag''), tr) \<and>
              tr = [Launch, Connect, BrowserPage gphotosURL, PageWaitLoad home] @
                     concat (replicate 60 [Sleep, PageInfo home]) \<and>
              count_list tr (PageInfo home) = 60"
proof -
  have "authLoop v cfg w home 0 [Launch, Connect, BrowserPage gphotosURL, PageWaitLoad home] =
      Some (False, [Launch, Connect, BrowserPage gphotosURL, PageWaitLoad home] @
                     concat (replicate (60 - 0) [Sleep, PageInfo home]))"
    using assms(1,6) by (intro authLoop_exhausted) simp_all
  with assms(1-5) have "startBrowser v cfg w =
      Some (Inl (New ''browser is not logged in - rerun with the -login flag''),
            [Launch, Connect, BrowserPage gphotosURL, PageWaitLoad home] @
              concat (replicate 60 [Sleep, PageInfo home]))"
    by (simp add: startBrowser_def)
  then show ?thesis
    by (simp add: count_list_polls)
qed

theorem startBrowser_bounded_not_logged_in_witness:
  "\<exists>tr. startBrowser VariantA globals0 world0 =
           Some (Inl (New ''browser is not logged in - rerun with the -login flag''), tr) \<and>
         tr = [Launch, Connect, BrowserPage gphotosURL, PageWaitLoad (Tab 0)] @
                concat (replicate 60 [Sleep, PageInfo (Tab 0)]) \<and>
         count_list tr (PageInfo (Tab 0)) = 60"
proof (rule startBrowser_bounded_not_logged_in)
  show "\<not> login globals0"
    by (simp add: globals0_def)
  show "launch world0 = Inr ''ws://127.0.0.1:9222/devtools/browser''"
    by (simp add: world0_def)
  show "connect world0 = None"
    by (simp add: world0_def)
  show "browserPage world0 gphotosURL = Inr (Tab 0)"
    by (simp add: world0_def gphotosURL_def)
  show "pageWaitLoad world0 (Tab 0) = None"
    by (simp add: world0_def)
  show "\<forall>k<60. \<forall>url. pageInfo world0 (Tab 0) k = Inr url \<longrightarrow> \<not> authenticated VariantA url"
    by (simp add: world0_def HasPrefix_def gphotosURL_def)
qed

end
